theory Spec2Isabelle
  imports Complex_Main "HOL-Library.Word"
begin

unbundle bit_operations_syntax

section \<open>Data model of \<open>metaverse_networking.c\<close>\<close>

text \<open>
  The C structs become records and the fixed-width integers become words.
  The \<open>float\<close> components of a \<open>Vector4\<close> have a type \<open>'f\<close> that is left open, and
  the \<open>float\<close> operations that the code applies to them are parameters (see
  \<open>float_ops\<close> below), so that nothing is assumed about rounding, infinities or NaN.
  Arrays that the code scans up to a separate count (\<open>entities\<close> with
  \<open>entity_count\<close>, \<open>players\<close> with \<open>player_count\<close>) are lists holding exactly the
  live slots, so the count is the length of the list; the same holds for the byte arrays
  with a length field. Addresses and times are numbers. Sockets, thread handles and
  mutexes carry no data the modelled functions compute with and are left out. The field
  \<open>entities\<close> of a snapshot is \<open>snapshot_entities\<close> here, since the manager has a
  field of the same name.
\<close>

type_synonym u8 = "8 word"
type_synonym u16 = "16 word"
type_synonym u32 = "32 word"
type_synonym u64 = "64 word"

definition METAVERSE_PROTOCOL_VERSION :: u8 where
  "METAVERSE_PROTOCOL_VERSION = 1"

definition MAX_PACKET_SIZE :: nat where
  "MAX_PACKET_SIZE = 1400"

definition MAX_ENTITIES_PER_PACKET :: nat where
  "MAX_ENTITIES_PER_PACKET = 64"

datatype PacketType =
    PACKET_CONNECT | PACKET_DISCONNECT | PACKET_ENTITY_UPDATE | PACKET_ENTITY_CREATE
  | PACKET_ENTITY_DESTROY | PACKET_CHAT_MESSAGE | PACKET_VOICE_DATA | PACKET_SNAPSHOT
  | PACKET_INPUT | PACKET_RPC | PACKET_PING | PACKET_PONG

text \<open>The numbering of the C enum, which starts at 0.\<close>

fun packet_type_code :: "PacketType \<Rightarrow> u8" where
  "packet_type_code PACKET_CONNECT = 0"
| "packet_type_code PACKET_DISCONNECT = 1"
| "packet_type_code PACKET_ENTITY_UPDATE = 2"
| "packet_type_code PACKET_ENTITY_CREATE = 3"
| "packet_type_code PACKET_ENTITY_DESTROY = 4"
| "packet_type_code PACKET_CHAT_MESSAGE = 5"
| "packet_type_code PACKET_VOICE_DATA = 6"
| "packet_type_code PACKET_SNAPSHOT = 7"
| "packet_type_code PACKET_INPUT = 8"
| "packet_type_code PACKET_RPC = 9"
| "packet_type_code PACKET_PING = 10"
| "packet_type_code PACKET_PONG = 11"

record 'f Vector4 =
  x :: 'f
  y :: 'f
  z :: 'f
  w :: 'f

record 'f NetworkEntity =
  entity_id :: u64
  owner_id :: u32
  entity_type :: u8
  flags :: u32
  position :: "'f Vector4"
  rotation :: "'f Vector4"
  velocity :: "'f Vector4"
  last_update :: u32
  interpolation_time :: u32

record NetworkPlayer =
  player_id :: u32
  username :: string
  address :: nat
  connect_time :: nat
  last_packet_time :: nat
  ping :: u32
  sequence_number :: u8
  authenticated :: bool
  connected :: bool
  input_sequence :: u32
  input_state :: "u8 list"
  owned_entities :: "u64 list"

record 'f NetworkSnapshot =
  snapshot_id :: u32
  timestamp :: u32
  entity_count :: u32
  snapshot_entities :: "'f NetworkEntity list"
  player_count :: u32
  player_ids :: "u32 list"

record ReliablePacket =
  sequence :: u16
  ack :: u16
  ack_bitfield :: u32
  packet_type :: u8
  data :: "u8 list"
  send_time :: nat
  acked :: bool
  retry_count :: u8

text \<open>
  \<open>packet_loss_rate\<close> is a \<open>float\<close> that the receive path divides by the packet's
  sequence number, which may be 0. A finite value is \<open>Some r\<close>; \<open>None\<close> stands for a
  non-finite value (an infinity or NaN), which no later update makes finite again.
\<close>

type_synonym cfloat = "real option"

record 'f NetworkManager =
  is_server :: bool
  is_connected :: bool
  server_address :: nat
  players :: "NetworkPlayer list"
  local_player_id :: u32
  entities :: "'f NetworkEntity list"
  entity_capacity :: u32
  snapshots :: "'f NetworkSnapshot list"
  snapshot_head :: u32
  snapshot_tail :: u32
  sent_packets :: "ReliablePacket list"
  next_send_sequence :: u16
  last_received_sequence :: u16
  network_active :: bool
  packets_sent :: u32
  packets_received :: u32
  packets_lost :: u32
  bytes_sent :: u32
  bytes_received :: u32
  average_ping :: cfloat
  packet_loss_rate :: cfloat

section \<open>Receive path\<close>

text \<open>
  \<open>*(uint16_t* )(data + 2)\<close> reads two bytes in the byte order of the host; the model
  takes the little-endian hosts the code is built for.
\<close>

definition read_u16 :: "u8 list \<Rightarrow> nat \<Rightarrow> u16" where
  "read_u16 d off = ucast (d ! off) + 256 * ucast (d ! (off + 1))"

text \<open>
  The handlers \<open>network_handle_*\<close> are called by \<open>network_process_packet\<close> but defined
  nowhere in the sources. A call is therefore a value: which handler, and the payload
  \<open>data + 4\<close> of \<open>length - 4\<close> bytes handed to it.
\<close>

datatype handler =
    Handle_connect | Handle_disconnect | Handle_entity_update | Handle_snapshot
  | Handle_input | Handle_chat | Handle_voice | Handle_rpc | Handle_ping | Handle_pong

text \<open>The \<open>switch (packet_type)\<close>: a type without a \<open>case\<close> calls nothing.\<close>

definition dispatch :: "u8 \<Rightarrow> handler option" where
  "dispatch t =
     (if t = packet_type_code PACKET_CONNECT then Some Handle_connect
      else if t = packet_type_code PACKET_DISCONNECT then Some Handle_disconnect
      else if t = packet_type_code PACKET_ENTITY_UPDATE then Some Handle_entity_update
      else if t = packet_type_code PACKET_SNAPSHOT then Some Handle_snapshot
      else if t = packet_type_code PACKET_INPUT then Some Handle_input
      else if t = packet_type_code PACKET_CHAT_MESSAGE then Some Handle_chat
      else if t = packet_type_code PACKET_VOICE_DATA then Some Handle_voice
      else if t = packet_type_code PACKET_RPC then Some Handle_rpc
      else if t = packet_type_code PACKET_PING then Some Handle_ping
      else if t = packet_type_code PACKET_PONG then Some Handle_pong
      else None)"

datatype packet_outcome =
    TooShort
  | VersionMismatch
  | Dispatched handler "u8 list"
  | NoHandler

text \<open>
  What \<open>network_process_packet\<close> prints: one line when the version does not match,
  nothing otherwise.
\<close>

definition diagnostic_output :: "packet_outcome \<Rightarrow> string list" where
  "diagnostic_output out = (if out = VersionMismatch then [''Protocol version mismatch''] else [])"

text \<open>
  The update of \<open>packet_loss_rate\<close>:
  \<open>0.9 * rate + 0.1 * (lost_packets / (float)sequence)\<close>. It runs only when
  \<open>lost_packets\<close> is not 0, so a sequence of 0 divides a positive number by zero.
\<close>

definition loss_rate_update :: "cfloat \<Rightarrow> u16 \<Rightarrow> u16 \<Rightarrow> cfloat" where
  "loss_rate_update rate lost seq =
     (case rate of
        None \<Rightarrow> None
      | Some r \<Rightarrow>
          if seq = 0 then None
          else Some (9 / 10 * r + 1 / 10 * (real (unat lost) / real (unat seq))))"

definition network_process_packet ::
  "'f NetworkManager \<Rightarrow> u8 list \<Rightarrow> 'f NetworkManager \<times> packet_outcome" where
  "network_process_packet manager d =
     (if length d < 4 then (manager, TooShort)
      else
        let protocol_version = d ! 0;
            ptype = d ! 1;
            seq = read_u16 d 2
        in if protocol_version \<noteq> METAVERSE_PROTOCOL_VERSION then (manager, VersionMismatch)
           else
             let expected_sequence = last_received_sequence manager + 1;
                 manager1 =
                   (if seq \<noteq> expected_sequence then
                      let lost_packets = seq - expected_sequence
                      in manager
                           \<lparr> packets_lost := packets_lost manager + ucast lost_packets,
                             packet_loss_rate :=
                               loss_rate_update (packet_loss_rate manager) lost_packets seq \<rparr>
                    else manager);
                 manager2 = manager1 \<lparr> last_received_sequence := seq \<rparr>
             in (manager2,
                 case dispatch ptype of
                   Some h \<Rightarrow> Dispatched h (drop 4 d)
                 | None \<Rightarrow> NoHandler))"

text \<open>
  One round of the loop of \<open>network_receive_thread\<close> in which \<open>recvfrom\<close> returned a
  datagram: at most \<open>sizeof(buffer) = MAX_PACKET_SIZE\<close> bytes of it are kept, the two
  receive counters are advanced, and the packet is processed. A round that received
  nothing changes nothing.
\<close>

definition network_receive_round ::
  "'f NetworkManager \<Rightarrow> u8 list \<Rightarrow> 'f NetworkManager \<times> packet_outcome option" where
  "network_receive_round manager datagram =
     (let buffer = take MAX_PACKET_SIZE datagram;
          received = length buffer
      in if received > 0 then
           let manager1 = manager
                 \<lparr> packets_received := packets_received manager + 1,
                   bytes_received := bytes_received manager + of_nat received \<rparr>;
               (manager2, out) = network_process_packet manager1 buffer
           in (manager2, Some out)
         else (manager, None))"

text \<open>
  Receiving several packets in turn. What a handler does to the manager is not in the
  sources, so it is a parameter.
\<close>

definition apply_outcome ::
  "(handler \<Rightarrow> u8 list \<Rightarrow> 'f NetworkManager \<Rightarrow> 'f NetworkManager) \<Rightarrow>
   'f NetworkManager \<times> packet_outcome \<Rightarrow> 'f NetworkManager" where
  "apply_outcome handle r =
     (case r of
        (m, Dispatched h payload) \<Rightarrow> handle h payload m
      | (m, _) \<Rightarrow> m)"

fun process_packets ::
  "(handler \<Rightarrow> u8 list \<Rightarrow> 'f NetworkManager \<Rightarrow> 'f NetworkManager) \<Rightarrow>
   'f NetworkManager \<Rightarrow> u8 list list \<Rightarrow> 'f NetworkManager" where
  "process_packets handle m [] = m"
| "process_packets handle m (d # ds) =
     process_packets handle (apply_outcome handle (network_process_packet m d)) ds"

text \<open>
  The manager as \<open>network_manager_create\<close> leaves it when it succeeds: zeroed by
  \<open>memset\<close>, with the address of the server (a number here) and no player or entity.
\<close>

definition zero_snapshot :: "'f NetworkSnapshot" where
  "zero_snapshot =
     \<lparr> snapshot_id = 0, timestamp = 0, entity_count = 0, snapshot_entities = [],
       player_count = 0, player_ids = replicate 32 0 \<rparr>"

definition network_manager_create :: "bool \<Rightarrow> nat \<Rightarrow> 'f NetworkManager" where
  "network_manager_create server addr =
     \<lparr> is_server = server, is_connected = False, server_address = addr, players = [],
       local_player_id = 0, entities = [], entity_capacity = 1024,
       snapshots = replicate 64 zero_snapshot, snapshot_head = 0, snapshot_tail = 0,
       sent_packets = [], next_send_sequence = 0, last_received_sequence = 0,
       network_active = False,
       packets_sent = 0, packets_received = 0, packets_lost = 0,
       bytes_sent = 0, bytes_received = 0,
       average_ping = Some 0, packet_loss_rate = Some 0 \<rparr>"

section \<open>State reconciliation\<close>

text \<open>
  The arithmetic of \<open>float\<close> as the compiled code has it: subtraction, multiplication,
  addition and \<open>sqrtf\<close>, each with its own rounding, the comparison \<open>>\<close>, and the
  values of the two literals \<open>0.1f\<close> and \<open>0.01f\<close>.
\<close>

record 'f float_ops =
  fsub :: "'f \<Rightarrow> 'f \<Rightarrow> 'f"
  fmul :: "'f \<Rightarrow> 'f \<Rightarrow> 'f"
  fadd :: "'f \<Rightarrow> 'f \<Rightarrow> 'f"
  sqrtf :: "'f \<Rightarrow> 'f"
  fgt :: "'f \<Rightarrow> 'f \<Rightarrow> bool"
  literal_0_1f :: 'f
  literal_0_01f :: 'f

text \<open>
  \<open>vector_distance\<close> looks at the first three components only. The sum
  \<open>dx*dx + dy*dy + dz*dz\<close> associates to the left.
\<close>

definition vector_distance :: "'f float_ops \<Rightarrow> 'f Vector4 \<Rightarrow> 'f Vector4 \<Rightarrow> 'f" where
  "vector_distance ops a b =
     (let dx = fsub ops (x a) (x b); dy = fsub ops (y a) (y b); dz = fsub ops (z a) (z b)
      in sqrtf ops
           (fadd ops (fadd ops (fmul ops dx dx) (fmul ops dy dy)) (fmul ops dz dz)))"

text \<open>
  \<open>find_server_entity\<close> scans the manager's own entity table from the front and
  returns a pointer to the first slot with the identifier, or \<open>NULL\<close>. The pointer is
  the index of the slot here, since the caller reads through it the table it is writing.
\<close>

fun find_entity_from :: "'f NetworkEntity list \<Rightarrow> nat \<Rightarrow> u64 \<Rightarrow> nat option" where
  "find_entity_from [] i eid = None"
| "find_entity_from (e # es) i eid =
     (if entity_id e = eid then Some i else find_entity_from es (Suc i) eid)"

definition find_server_entity :: "'f NetworkEntity list \<Rightarrow> u64 \<Rightarrow> nat option" where
  "find_server_entity es eid = find_entity_from es 0 eid"

text \<open>The test of \<open>network_reconcile_state\<close>, with its two thresholds.\<close>

definition state_mismatch ::
  "'f float_ops \<Rightarrow> 'f NetworkEntity \<Rightarrow> 'f NetworkEntity \<Rightarrow> bool" where
  "state_mismatch ops entity server_entity \<longleftrightarrow>
     fgt ops (vector_distance ops (position entity) (position server_entity))
       (literal_0_1f ops)
     \<or> fgt ops (vector_distance ops (rotation entity) (rotation server_entity))
          (literal_0_01f ops)"

text \<open>The line that the function prints for a mismatch is the correction event.\<close>

datatype event = StateMismatch u64

text \<open>The body of the loop, for the slot \<open>i\<close>, on the table and the lines printed so far.\<close>

definition reconcile_entity ::
  "'f float_ops \<Rightarrow> u32 \<Rightarrow> nat \<Rightarrow> 'f NetworkEntity list \<times> event list \<Rightarrow>
   'f NetworkEntity list \<times> event list" where
  "reconcile_entity ops local_id i st =
     (case st of (es, out) \<Rightarrow>
        let entity = es ! i
        in if owner_id entity \<noteq> local_id then (es, out)
           else
             case find_server_entity es (entity_id entity) of
               None \<Rightarrow> (es, out)
             | Some j \<Rightarrow>
                 let server_entity = es ! j
                 in if state_mismatch ops entity server_entity then
                      (es [i := entity \<lparr> position := position server_entity,
                                        rotation := rotation server_entity \<rparr>],
                       out @ [StateMismatch (entity_id entity)])
                    else (es, out))"

text \<open>The first \<open>n\<close> rounds of the loop, from a table and nothing printed.\<close>

definition reconcile_loop ::
  "'f float_ops \<Rightarrow> u32 \<Rightarrow> nat \<Rightarrow> 'f NetworkEntity list \<Rightarrow>
   'f NetworkEntity list \<times> event list" where
  "reconcile_loop ops local_id n es = fold (reconcile_entity ops local_id) [0..<n] (es, [])"

definition network_reconcile_state ::
  "'f float_ops \<Rightarrow> 'f NetworkManager \<Rightarrow> 'f NetworkManager \<times> event list" where
  "network_reconcile_state ops manager =
     (if is_server manager then (manager, [])
      else
        let (es, out) =
              reconcile_loop ops (local_player_id manager) (length (entities manager))
                (entities manager)
        in (manager \<lparr> entities := es \<rparr>, out))"

text \<open>
  For the proofs: the entity that the loop leaves in slot \<open>t\<close> and the lines that round
  \<open>t\<close> prints, both in terms of the table the loop starts from.
\<close>

definition reconciled ::
  "'f float_ops \<Rightarrow> u32 \<Rightarrow> 'f NetworkEntity list \<Rightarrow> nat \<Rightarrow> 'f NetworkEntity" where
  "reconciled ops local_id es t =
     (let entity = es ! t
      in if owner_id entity \<noteq> local_id then entity
         else
           case find_server_entity es (entity_id entity) of
             None \<Rightarrow> entity
           | Some j \<Rightarrow>
               if state_mismatch ops entity (es ! j) then
                 entity \<lparr> position := position (es ! j), rotation := rotation (es ! j) \<rparr>
               else entity)"

definition mismatch_events ::
  "'f float_ops \<Rightarrow> u32 \<Rightarrow> 'f NetworkEntity list \<Rightarrow> nat \<Rightarrow> event list" where
  "mismatch_events ops local_id es t =
     (let entity = es ! t
      in if owner_id entity \<noteq> local_id then []
         else
           case find_server_entity es (entity_id entity) of
             None \<Rightarrow> []
           | Some j \<Rightarrow>
               if state_mismatch ops entity (es ! j) then [StateMismatch (entity_id entity)]
               else [])"

section \<open>Entity interpolation\<close>

text \<open>
  \<open>network_interpolate_entities\<close> takes the time from \<open>time(NULL)\<close>, a parameter here.
  For an entity of another owner that is not stale and has an interpolation time, the
  code computes the clamped factor \<open>alpha\<close> and then does nothing with it: the only
  statement left in the block is a comment.
\<close>

definition interpolation_alpha :: "u32 \<Rightarrow> 'f NetworkEntity \<Rightarrow> real" where
  "interpolation_alpha now entity =
     (let alpha = real (unat (now - last_update entity)) / real (unat (interpolation_time entity))
      in min (max alpha 0) 1)"

definition interpolate_entity :: "u32 \<Rightarrow> u32 \<Rightarrow> 'f NetworkEntity \<Rightarrow> 'f NetworkEntity" where
  "interpolate_entity now local_id entity =
     (if owner_id entity = local_id then entity
      else if now - last_update entity > 1000 then entity
      else if interpolation_time entity > 0 then
        (let alpha = interpolation_alpha now entity in entity)
      else entity)"

definition network_interpolate_entities :: "u32 \<Rightarrow> 'f NetworkManager \<Rightarrow> 'f NetworkManager" where
  "network_interpolate_entities now manager =
     (if is_server manager then manager
      else manager \<lparr> entities :=
             map (interpolate_entity now (local_player_id manager)) (entities manager) \<rparr>)"

section \<open>Snapshots\<close>

text \<open>
  The loop of \<open>network_send_snapshot\<close> over the entity table. It reads the clock in
  every round, so the clock is a function of the round. \<open>snapshot_entities\<close> holds the
  slots of the array written so far.
\<close>

fun snapshot_collect ::
  "(nat \<Rightarrow> u32) \<Rightarrow> nat \<Rightarrow> 'f NetworkEntity list \<Rightarrow> 'f NetworkSnapshot \<Rightarrow> 'f NetworkSnapshot" where
  "snapshot_collect clock i [] snapshot = snapshot"
| "snapshot_collect clock i (e # es) snapshot =
     (if unat (entity_count snapshot) \<ge> MAX_ENTITIES_PER_PACKET then snapshot
      else
        let now = clock i
        in if now - last_update e \<le> 2 then
             snapshot_collect clock (Suc i) es
               (snapshot \<lparr> snapshot_entities := snapshot_entities snapshot @ [e],
                           entity_count := entity_count snapshot + 1 \<rparr>)
           else snapshot_collect clock (Suc i) es snapshot)"

text \<open>The presence bitmask: bit \<open>i mod 32\<close> of word \<open>i div 32\<close> for a connected player \<open>i\<close>.\<close>

fun player_bitmask :: "NetworkPlayer list \<Rightarrow> nat \<Rightarrow> u32 list \<Rightarrow> u32 list" where
  "player_bitmask [] i ids = ids"
| "player_bitmask (p # ps) i ids =
     player_bitmask ps (Suc i)
       (if connected p then ids [i div 32 := (ids ! (i div 32)) OR push_bit (i mod 32) 1]
        else ids)"

text \<open>
  The first half of \<open>network_send_snapshot\<close> on a server: the snapshot it builds from
  the static counter, the time, the entity table and the players.
\<close>

definition build_snapshot ::
  "u32 \<Rightarrow> u32 \<Rightarrow> (nat \<Rightarrow> u32) \<Rightarrow> 'f NetworkManager \<Rightarrow> 'f NetworkSnapshot" where
  "build_snapshot snapshot_counter now clock manager =
     (let snapshot0 =
            \<lparr> snapshot_id = snapshot_counter, timestamp = now, entity_count = 0,
              snapshot_entities = [], player_count = 0, player_ids = [] \<rparr>;
          snapshot1 = snapshot_collect clock 0 (entities manager) snapshot0
      in snapshot1
           \<lparr> player_count := of_nat (length (players manager)),
             player_ids := player_bitmask (players manager) 0 (replicate 32 0) \<rparr>)"

text \<open>
  The second half stores the snapshot in the ring of 64, takes a sequence number and
  serialises into \<open>packet[MAX_PACKET_SIZE]\<close>: 12 bytes of snapshot header, then for each
  entity the mask, the identifier, the owner, the type and three vectors of 16 bytes,
  then the 128 bytes of the bitmask. Nothing checks the buffer, so a packet that does not
  fit is a write out of bounds. The packets sent are given by address and size.
\<close>

datatype mem_error = ReadOutOfBounds | WriteOutOfBounds

definition snapshot_packet_size :: "'f NetworkSnapshot \<Rightarrow> nat" where
  "snapshot_packet_size snapshot =
     4 + (4 + 4 + 4) + unat (entity_count snapshot) * (1 + 8 + 4 + 1 + 16 + 16 + 16) + 128"

definition network_send_snapshot ::
  "u32 \<Rightarrow> u32 \<Rightarrow> (nat \<Rightarrow> u32) \<Rightarrow> 'f NetworkManager \<Rightarrow>
   mem_error + ('f NetworkManager \<times> u32 \<times> (nat \<times> nat) list)" where
  "network_send_snapshot snapshot_counter now clock manager =
     (if \<not> is_server manager then Inr (manager, snapshot_counter, [])
      else
        let snapshot = build_snapshot snapshot_counter now clock manager;
            manager1 = manager
              \<lparr> snapshots := (snapshots manager) [unat (snapshot_head manager) := snapshot],
                snapshot_head := (snapshot_head manager + 1) mod 64,
                next_send_sequence := next_send_sequence manager + 1 \<rparr>;
            packet_size = snapshot_packet_size snapshot
        in if packet_size > MAX_PACKET_SIZE then Inl WriteOutOfBounds
           else
             let recipients = map address (filter connected (players manager))
             in Inr (manager1
                       \<lparr> packets_sent := packets_sent manager1 + of_nat (length recipients),
                         bytes_sent := bytes_sent manager1
                           + of_nat (length recipients) * of_nat packet_size \<rparr>,
                     snapshot_counter + 1,
                     map (\<lambda>a. (a, packet_size)) recipients))"

section \<open>Voice packets\<close>

text \<open>
  Buffers are lists of bytes whose length is the size of the array; a byte that nothing
  has written yet is \<open>None\<close>. \<open>memcpy\<close> fails where C would read or write past an
  array.
\<close>

type_synonym byte = "u8 option"

definition memcpy :: "byte list \<Rightarrow> nat \<Rightarrow> byte list \<Rightarrow> nat \<Rightarrow> mem_error + byte list" where
  "memcpy dst off src n =
     (if length src < n then Inl ReadOutOfBounds
      else if length dst < off + n then Inl WriteOutOfBounds
      else Inr (take off dst @ take n src @ drop (off + n) dst))"

definition le16 :: "u16 \<Rightarrow> byte list" where
  "le16 v = [Some (ucast v), Some (ucast (drop_bit 8 v))]"

definition le32 :: "u32 \<Rightarrow> byte list" where
  "le32 v = [Some (ucast v), Some (ucast (drop_bit 8 v)), Some (ucast (drop_bit 16 v)),
             Some (ucast (drop_bit 24 v))]"

text \<open>
  The layout of a struct under natural alignment, which the ABIs the code is built for
  use: each member, given by size and alignment, starts at the next multiple of its
  alignment, and the size of the struct is rounded up to its largest alignment.
\<close>

definition align_up :: "nat \<Rightarrow> nat \<Rightarrow> nat" where
  "align_up n a = ((n + a - 1) div a) * a"

fun member_offsets :: "nat \<Rightarrow> (nat \<times> nat) list \<Rightarrow> nat list" where
  "member_offsets cur [] = []"
| "member_offsets cur ((sz, al) # ms) =
     align_up cur al # member_offsets (align_up cur al + sz) ms"

fun members_end :: "nat \<Rightarrow> (nat \<times> nat) list \<Rightarrow> nat" where
  "members_end cur [] = cur"
| "members_end cur ((sz, al) # ms) = members_end (align_up cur al + sz) ms"

definition sizeof_struct :: "(nat \<times> nat) list \<Rightarrow> nat" where
  "sizeof_struct ms = align_up (members_end 0 ms) (fold max (map snd ms) 1)"

definition VoicePacket_members :: "(nat \<times> nat) list" where
  "VoicePacket_members =
     [(4, 4), (2, 2), (4, 4), (1, 1), (1, 1), (2, 2), (2, 2), (1200, 1)]"

definition sizeof_VoicePacket :: nat where
  "sizeof_VoicePacket = sizeof_struct VoicePacket_members"

definition sizeof_audio_data :: nat where
  "sizeof_audio_data = 1200"

text \<open>
  The bytes of the local \<open>VoicePacket\<close> once its fields are assigned, and the packet
  buffer once its header is written.
\<close>

definition voice_image ::
  "u32 \<Rightarrow> u32 \<Rightarrow> u8 \<Rightarrow> u16 \<Rightarrow> u16 \<Rightarrow> byte list \<Rightarrow> byte list" where
  "voice_image player now channels sample_rate data_size voice_audio_data =
     le32 player @ le16 0 @ [None, None] @ le32 now @ [Some 0, Some channels]
     @ le16 sample_rate @ le16 data_size @ voice_audio_data @ [None, None]"

definition packet_buffer :: "PacketType \<Rightarrow> u16 \<Rightarrow> byte list" where
  "packet_buffer t seq =
     [Some METAVERSE_PROTOCOL_VERSION, Some (packet_type_code t)] @ le16 seq
     @ replicate (MAX_PACKET_SIZE - 4) None"

definition network_send_voice ::
  "u32 \<Rightarrow> 'f NetworkManager \<Rightarrow> u8 list \<Rightarrow> u16 \<Rightarrow> u8 \<Rightarrow> u16 \<Rightarrow>
   mem_error + ('f NetworkManager \<times> (nat \<times> byte list) list)" where
  "network_send_voice now manager audio_data data_size channels sample_rate =
     (if \<not> is_connected manager then Inr (manager, [])
      else
        case memcpy (replicate sizeof_audio_data None) 0 (map Some audio_data) (unat data_size) of
          Inl e \<Rightarrow> Inl e
        | Inr voice_audio_data \<Rightarrow>
            let voice = voice_image (local_player_id manager) now channels sample_rate data_size
                          voice_audio_data;
                packet0 = packet_buffer PACKET_VOICE_DATA (next_send_sequence manager);
                manager1 = manager \<lparr> next_send_sequence := next_send_sequence manager + 1 \<rparr>;
                n = sizeof_VoicePacket - sizeof_audio_data + unat data_size
            in case memcpy packet0 4 voice n of
                 Inl e \<Rightarrow> Inl e
               | Inr packet \<Rightarrow>
                   let packet_size = 4 + n;
                       recipients =
                         (if is_server manager then
                            map address
                              (filter (\<lambda>p. connected p \<and> player_id p \<noteq> local_player_id manager)
                                 (players manager))
                          else [server_address manager])
                   in Inr (manager1
                             \<lparr> packets_sent := packets_sent manager1 + 1,
                               bytes_sent := bytes_sent manager1 + of_nat packet_size \<rparr>,
                           map (\<lambda>a. (a, take packet_size packet)) recipients))"

section \<open>Reliable packets\<close>

text \<open>
  Modelled from the spec: \<open>network_send_reliable_retries\<close>, which
  \<open>network_send_thread\<close> calls every tick, is missing from the sources, as are the
  retry limit, the retransmission timeout and the session registry. What the tick decides
  for one record of the queue: keep it, retransmit it, destroy it, or report the peer as
  unreachable (which destroys it too).
\<close>

datatype retry_action = Keep ReliablePacket | Retransmit ReliablePacket | Destroy | Unreachable

text \<open>
  Modelled from the spec: the missing decision for one reliable packet record. It is
  destroyed on acknowledgment; an unacknowledged one is retransmitted after a fixed
  timeout, up to a bounded retry count, after which the channel reports the peer as
  unreachable.
\<close>

definition retry_packet :: "nat \<Rightarrow> nat \<Rightarrow> nat \<Rightarrow> ReliablePacket \<Rightarrow> retry_action" where
  "retry_packet max_retries timeout now p =
     (if acked p then Destroy
      else if now < send_time p + timeout then Keep p
      else if unat (retry_count p) < max_retries then
        Retransmit (p \<lparr> retry_count := retry_count p + 1, send_time := now \<rparr>)
      else Unreachable)"

text \<open>
  Modelled from the spec: the missing queue after a tick, without the records destroyed
  on acknowledgment or after the maximum retry count.
\<close>

fun kept_packets :: "retry_action list \<Rightarrow> ReliablePacket list" where
  "kept_packets [] = []"
| "kept_packets (Keep p # as) = p # kept_packets as"
| "kept_packets (Retransmit p # as) = p # kept_packets as"
| "kept_packets (Destroy # as) = kept_packets as"
| "kept_packets (Unreachable # as) = kept_packets as"

text \<open>Modelled from the spec: the missing list of packets that a tick sends again.\<close>

fun retransmissions :: "retry_action list \<Rightarrow> ReliablePacket list" where
  "retransmissions [] = []"
| "retransmissions (Retransmit p # as) = p # retransmissions as"
| "retransmissions (a # as) = retransmissions as"

text \<open>
  Modelled from the spec: the missing \<open>disconnect(peerId)\<close> of the session registry.
  A server marks the peer as not connected and releases its entities to server ownership
  (owner 0); a client tracks one peer, the server, and is no longer connected.
\<close>

definition registry_disconnect :: "u32 \<Rightarrow> 'f NetworkManager \<Rightarrow> 'f NetworkManager" where
  "registry_disconnect peer manager =
     (if is_server manager then
        manager
          \<lparr> players := map (\<lambda>p. if player_id p = peer then p \<lparr> connected := False \<rparr> else p)
                          (players manager),
            entities := map (\<lambda>e. if owner_id e = peer then e \<lparr> owner_id := 0 \<rparr> else e)
                          (entities manager) \<rparr>
      else manager \<lparr> is_connected := False \<rparr>)"

text \<open>
  Modelled from the spec: the missing reaction of the registry to a keepalive timeout,
  which evicts the dead peer.
\<close>

definition registry_keepalive_timeout :: "u32 \<Rightarrow> 'f NetworkManager \<Rightarrow> 'f NetworkManager" where
  "registry_keepalive_timeout peer manager = registry_disconnect peer manager"

text \<open>
  Modelled from the spec: the missing reaction of the registry to "peer unreachable",
  which it treats as equivalent to a keepalive timeout.
\<close>

definition registry_peer_unreachable :: "u32 \<Rightarrow> 'f NetworkManager \<Rightarrow> 'f NetworkManager" where
  "registry_peer_unreachable peer manager = registry_keepalive_timeout peer manager"

text \<open>
  Modelled from the spec: the missing \<open>network_send_reliable_retries\<close>, for the retry
  limit, the timeout, the time and the peer of the channel. It returns the manager, the
  packets sent again and whether the peer was reported unreachable.
\<close>

definition network_send_reliable_retries ::
  "nat \<Rightarrow> nat \<Rightarrow> nat \<Rightarrow> u32 \<Rightarrow> 'f NetworkManager \<Rightarrow> 'f NetworkManager \<times> ReliablePacket list \<times> bool" where
  "network_send_reliable_retries max_retries timeout now peer manager =
     (let actions = map (retry_packet max_retries timeout now) (sent_packets manager);
          manager1 = manager \<lparr> sent_packets := kept_packets actions \<rparr>;
          unreachable = (Unreachable \<in> set actions)
      in (if unreachable then registry_peer_unreachable peer manager1 else manager1,
          retransmissions actions, unreachable))"

subsection \<open>The sequence distance of the specification\<close>

text \<open>
  Written from the specification, for comparison with the code: the distance
  \<open>sequence - expectedNext\<close> read as a signed 16-bit number, negative for an old or
  duplicate packet.
\<close>

definition spec_sequence_delta :: "u16 \<Rightarrow> u16 \<Rightarrow> int" where
  "spec_sequence_delta last_received seq = sint (seq - (last_received + 1))"

subsection \<open>Concrete managers and packets\<close>

definition server_fresh :: "real NetworkManager" where
  "server_fresh = network_manager_create True 7777"

definition client_after_10 :: "real NetworkManager" where
  "client_after_10 = (network_manager_create False 7777) \<lparr> last_received_sequence := 10 \<rparr>"

definition client_after_7 :: "real NetworkManager" where
  "client_after_7 = (network_manager_create False 7777) \<lparr> last_received_sequence := 7 \<rparr>"

definition client_after_65530 :: "real NetworkManager" where
  "client_after_65530 = (network_manager_create False 7777) \<lparr> last_received_sequence := 65530 \<rparr>"

text \<open>
  Pings with the sequence numbers 5, 7 and 11, and a packet of version 2 of the same
  length.
\<close>

definition ping_5 :: "u8 list" where
  "ping_5 = [1, 10, 5, 0, 7]"

definition ping_7 :: "u8 list" where
  "ping_7 = [1, 10, 7, 0]"

definition ping_11 :: "u8 list" where
  "ping_11 = [1, 10, 11, 0, 7]"

definition ping_version_2 :: "u8 list" where
  "ping_version_2 = [2, 10, 9, 0, 7]"

definition no_handlers :: "handler \<Rightarrow> u8 list \<Rightarrow> 'f NetworkManager \<Rightarrow> 'f NetworkManager" where
  "no_handlers h p m = m"

text \<open>
  An instance of the float operations for the examples: the operations on real numbers.
  On the operands of the examples, 0 and 1, every difference, product, sum and root is 0
  or 1 again, which binary32 arithmetic gives exactly as well. The two literals have
  their binary32 values.
\<close>

definition example_float_ops :: "real float_ops" where
  "example_float_ops =
     \<lparr> fsub = (\<lambda>a b. a - b), fmul = (\<lambda>a b. a * b), fadd = (\<lambda>a b. a + b), sqrtf = sqrt,
       fgt = (\<lambda>a b. a > b), literal_0_1f = 13421773 / 134217728,
       literal_0_01f = 10737418 / 1073741824 \<rparr>"

definition origin :: "real Vector4" where
  "origin = \<lparr> x = 0, y = 0, z = 0, w = 0 \<rparr>"

definition unit_x :: "real Vector4" where
  "unit_x = \<lparr> x = 1, y = 0, z = 0, w = 0 \<rparr>"

definition identity_rotation :: "real Vector4" where
  "identity_rotation = \<lparr> x = 0, y = 0, z = 0, w = 1 \<rparr>"

definition avatar_at :: "real Vector4 \<Rightarrow> real NetworkEntity" where
  "avatar_at p =
     \<lparr> entity_id = 7, owner_id = 1, entity_type = 0, flags = 0, position = p,
       rotation = identity_rotation, velocity = origin, last_update = 100,
       interpolation_time = 10 \<rparr>"

text \<open>
  A client of player 1 that predicts its entity 7 at \<open>(1, 0, 0)\<close>, and one that owns
  the entities 7 and 9.
\<close>

definition client_predicted :: "real NetworkManager" where
  "client_predicted = (network_manager_create False 7777)
     \<lparr> local_player_id := 1, entities := [avatar_at unit_x] \<rparr>"

definition client_two :: "real NetworkManager" where
  "client_two = (network_manager_create False 7777)
     \<lparr> local_player_id := 1,
       entities := [avatar_at unit_x, (avatar_at origin) \<lparr> entity_id := 9 \<rparr>] \<rparr>"

text \<open>A client of player 1 with one entity of player 2, last updated at time 100.\<close>

definition remote_avatar :: "real NetworkEntity" where
  "remote_avatar = (avatar_at unit_x) \<lparr> entity_id := 8, owner_id := 2 \<rparr>"

definition client_remote :: "real NetworkManager" where
  "client_remote = (network_manager_create False 7777)
     \<lparr> local_player_id := 1, entities := [remote_avatar] \<rparr>"

text \<open>A connected client that sends voice, and one that waits for an acknowledgment.\<close>

definition voice_caller :: "real NetworkManager" where
  "voice_caller = (network_manager_create False 7777) \<lparr> is_connected := True, local_player_id := 1 \<rparr>"

definition rpc_unacked :: ReliablePacket where
  "rpc_unacked =
     \<lparr> sequence = 3, ack = 0, ack_bitfield = 0, packet_type = packet_type_code PACKET_RPC,
       data = [1, 9, 3, 0], send_time = 10, acked = False, retry_count = 5 \<rparr>"

definition client_waiting :: "real NetworkManager" where
  "client_waiting = (network_manager_create False 7777)
     \<lparr> is_connected := True, sent_packets := [rpc_unacked] \<rparr>"

section \<open>Properties\<close>

subsection \<open>Receive path\<close>

lemma process_packet_accepted:
  assumes "4 \<le> length d" and "d ! 0 = METAVERSE_PROTOCOL_VERSION"
  shows "network_process_packet m d =
     ((if read_u16 d 2 \<noteq> last_received_sequence m + 1 then
         m \<lparr> packets_lost := packets_lost m + ucast (read_u16 d 2 - (last_received_sequence m + 1)),
             packet_loss_rate := loss_rate_update (packet_loss_rate m)
                (read_u16 d 2 - (last_received_sequence m + 1)) (read_u16 d 2) \<rparr>
       else m) \<lparr> last_received_sequence := read_u16 d 2 \<rparr>,
      case dispatch (d ! 1) of Some h \<Rightarrow> Dispatched h (drop 4 d) | None \<Rightarrow> NoHandler)"
  using assms by (simp add: network_process_packet_def Let_def)

lemma process_packet_rejected:
  assumes "length d < 4 \<or> d ! 0 \<noteq> METAVERSE_PROTOCOL_VERSION"
  shows "network_process_packet m d = (m, if length d < 4 then TooShort else VersionMismatch)"
  using assms by (auto simp add: network_process_packet_def Let_def)

lemma tracking_after_packet:
  assumes "4 \<le> length d" and "d ! 0 = METAVERSE_PROTOCOL_VERSION"
    and "\<And>h p n. last_received_sequence (handle h p n) = last_received_sequence n
            \<and> packets_lost (handle h p n) = packets_lost n
            \<and> packet_loss_rate (handle h p n) = packet_loss_rate n"
  shows "last_received_sequence (apply_outcome handle (network_process_packet m d)) = read_u16 d 2"
    and "read_u16 d 2 = last_received_sequence m + 1 \<Longrightarrow>
           packets_lost (apply_outcome handle (network_process_packet m d)) = packets_lost m"
    and "read_u16 d 2 = last_received_sequence m + 1 \<Longrightarrow>
           packet_loss_rate (apply_outcome handle (network_process_packet m d)) = packet_loss_rate m"
    and "read_u16 d 2 \<noteq> last_received_sequence m + 1 \<Longrightarrow>
           packets_lost (apply_outcome handle (network_process_packet m d)) =
             packets_lost m + ucast (read_u16 d 2 - (last_received_sequence m + 1))"
    and "read_u16 d 2 \<noteq> last_received_sequence m + 1 \<Longrightarrow>
           packet_loss_rate (apply_outcome handle (network_process_packet m d)) =
             loss_rate_update (packet_loss_rate m)
                (read_u16 d 2 - (last_received_sequence m + 1)) (read_u16 d 2)"
  using assms
  by (simp_all add: process_packet_accepted apply_outcome_def split: option.split)

text \<open>
  Claim C2, as the code has it. The receive path computes the distance between the
  packet's sequence number and the expected one as an unsigned 16-bit difference, which
  wraps modulo 65536, widens it to 32 bits without sign and adds it to \<open>packets_lost\<close>;
  the last received sequence number always becomes the packet's. So every accepted
  packet is taken to come after the last one, whatever the two numbers are. For a last
  received sequence number of 65530 and a packet numbered 5 this counts 10 lost packets
  and moves on to 5.
\<close>

theorem sequence_distance_unsigned:
  assumes "4 \<le> length d" and "d ! 0 = METAVERSE_PROTOCOL_VERSION"
  shows "packets_lost (fst (network_process_packet m d)) =
           packets_lost m + ucast (read_u16 d 2 - (last_received_sequence m + 1))
       \<and> last_received_sequence (fst (network_process_packet m d)) = read_u16 d 2"
  using assms by (simp add: process_packet_accepted)

theorem sequence_distance_unsigned_witness:
  "4 \<le> length ping_5 \<and> ping_5 ! 0 = METAVERSE_PROTOCOL_VERSION
   \<and> last_received_sequence client_after_65530 = 65530
   \<and> read_u16 ping_5 2 = 5
   \<and> packets_lost (fst (network_process_packet client_after_65530 ping_5)) = 10
   \<and> last_received_sequence (fst (network_process_packet client_after_65530 ping_5)) = 5"
proof -
  have a: "4 \<le> length ping_5" by (simp add: ping_5_def)
  have b: "ping_5 ! 0 = METAVERSE_PROTOCOL_VERSION"
    by (simp add: ping_5_def METAVERSE_PROTOCOL_VERSION_def)
  show ?thesis
    using a b sequence_distance_unsigned [OF a b, of client_after_65530]
    by (simp add: client_after_65530_def ping_5_def network_manager_create_def read_u16_def)
qed

text \<open>
  Claim C2 as stated fails: for a duplicate of the packet received last (last received
  sequence number 7, packet numbered 7) the signed 16-bit distance is \<open>-1\<close>, a
  regression, but the code counts 65535 lost packets, which is the unsigned distance.
\<close>

theorem sequence_distance_counterexample:
  "spec_sequence_delta (last_received_sequence client_after_7) (read_u16 ping_7 2) = - 1
   \<and> packets_lost client_after_7 = 0
   \<and> packets_lost (fst (network_process_packet client_after_7 ping_7)) = 65535"
  by (simp add: spec_sequence_delta_def client_after_7_def ping_7_def network_manager_create_def
      read_u16_def network_process_packet_def METAVERSE_PROTOCOL_VERSION_def Let_def
      unsigned_minus_1_eq_mask mask_eq_exp_minus_1)

text \<open>
  Claim C3, as the code has it. A packet of the supported version and of at least 4
  bytes whose sequence number is older than the expected one (negative signed distance)
  is not dropped: the unsigned distance is added to \<open>packets_lost\<close>, the loss rate is
  updated, \<open>last_received_sequence\<close> becomes the packet's number, and the packet goes
  to the handler of its type.
\<close>

theorem old_packet_processed:
  assumes "4 \<le> length d" and "d ! 0 = METAVERSE_PROTOCOL_VERSION"
    and "spec_sequence_delta (last_received_sequence m) (read_u16 d 2) < 0"
  shows "network_process_packet m d =
     (m \<lparr> packets_lost := packets_lost m + ucast (read_u16 d 2 - (last_received_sequence m + 1)),
         packet_loss_rate := loss_rate_update (packet_loss_rate m)
            (read_u16 d 2 - (last_received_sequence m + 1)) (read_u16 d 2),
         last_received_sequence := read_u16 d 2 \<rparr>,
      case dispatch (d ! 1) of Some h \<Rightarrow> Dispatched h (drop 4 d) | None \<Rightarrow> NoHandler)"
proof -
  have "read_u16 d 2 \<noteq> last_received_sequence m + 1"
    using assms(3) by (auto simp add: spec_sequence_delta_def)
  then show ?thesis
    using assms(1,2) by (simp add: process_packet_accepted)
qed

theorem old_packet_processed_witness:
  "4 \<le> length ping_5 \<and> ping_5 ! 0 = METAVERSE_PROTOCOL_VERSION
   \<and> spec_sequence_delta (last_received_sequence client_after_10) (read_u16 ping_5 2) < 0
   \<and> network_process_packet client_after_10 ping_5 =
     (client_after_10 \<lparr> packets_lost := 65530, packet_loss_rate := Some (6553 / 5),
         last_received_sequence := 5 \<rparr>, Dispatched Handle_ping [7])"
proof -
  have a: "4 \<le> length ping_5" by (simp add: ping_5_def)
  have b: "ping_5 ! 0 = METAVERSE_PROTOCOL_VERSION"
    by (simp add: ping_5_def METAVERSE_PROTOCOL_VERSION_def)
  have c: "spec_sequence_delta (last_received_sequence client_after_10) (read_u16 ping_5 2) < 0"
    by (simp add: spec_sequence_delta_def client_after_10_def ping_5_def
        network_manager_create_def read_u16_def)
  show ?thesis
    using a b c old_packet_processed [OF a b c]
    by (simp add: client_after_10_def ping_5_def network_manager_create_def read_u16_def
        dispatch_def loss_rate_update_def)
qed

text \<open>
  Claim C3 as stated fails: with 10 received last, the ping numbered 5 is old, yet it is
  handed to the ping handler, 65530 packets are counted as lost and the last received
  sequence number moves back to 5.
\<close>

theorem old_packet_counterexample:
  "spec_sequence_delta (last_received_sequence client_after_10) (read_u16 ping_5 2) < 0
   \<and> snd (network_process_packet client_after_10 ping_5) = Dispatched Handle_ping [7]
   \<and> packets_lost client_after_10 = 0
   \<and> packets_lost (fst (network_process_packet client_after_10 ping_5)) = 65530
   \<and> last_received_sequence client_after_10 = 10
   \<and> last_received_sequence (fst (network_process_packet client_after_10 ping_5)) = 5"
  by (simp add: spec_sequence_delta_def client_after_10_def ping_5_def network_manager_create_def
      read_u16_def network_process_packet_def METAVERSE_PROTOCOL_VERSION_def dispatch_def
      Let_def)

text \<open>
  Claim C5. From a last received sequence number of 0, four packets of the supported
  version numbered 1, 2, 4 and 5, of any type and payload, raise \<open>packets_lost\<close> by
  exactly one, and the loss rate is updated once, for one packet lost at sequence
  number 4. The handlers, whose code is not in the sources, are assumed not to write
  the three fields of the sequence tracking.
\<close>

theorem loss_after_1_2_4_5:
  assumes start: "last_received_sequence m = 0"
    and len: "4 \<le> length d1" "4 \<le> length d2" "4 \<le> length d4" "4 \<le> length d5"
    and ver: "d1 ! 0 = METAVERSE_PROTOCOL_VERSION" "d2 ! 0 = METAVERSE_PROTOCOL_VERSION"
             "d4 ! 0 = METAVERSE_PROTOCOL_VERSION" "d5 ! 0 = METAVERSE_PROTOCOL_VERSION"
    and seqs: "read_u16 d1 2 = 1" "read_u16 d2 2 = 2" "read_u16 d4 2 = 4" "read_u16 d5 2 = 5"
    and handle: "\<And>h p n. last_received_sequence (handle h p n) = last_received_sequence n
            \<and> packets_lost (handle h p n) = packets_lost n
            \<and> packet_loss_rate (handle h p n) = packet_loss_rate n"
  shows "packets_lost (process_packets handle m [d1, d2, d4, d5]) = packets_lost m + 1
       \<and> packet_loss_rate (process_packets handle m [d1, d2, d4, d5]) =
           loss_rate_update (packet_loss_rate m) 1 4
       \<and> last_received_sequence (process_packets handle m [d1, d2, d4, d5]) = 5"
proof -
  define m1 where "m1 = apply_outcome handle (network_process_packet m d1)"
  define m2 where "m2 = apply_outcome handle (network_process_packet m1 d2)"
  define m4 where "m4 = apply_outcome handle (network_process_packet m2 d4)"
  define m5 where "m5 = apply_outcome handle (network_process_packet m4 d5)"
  have run: "process_packets handle m [d1, d2, d4, d5] = m5"
    by (simp add: m1_def m2_def m4_def m5_def)
  have s1: "last_received_sequence m1 = 1" "packets_lost m1 = packets_lost m"
      "packet_loss_rate m1 = packet_loss_rate m"
    unfolding m1_def
    using tracking_after_packet(1-3) [OF len(1) ver(1) handle, where m = m] start seqs(1) by simp_all
  have s2: "last_received_sequence m2 = 2" "packets_lost m2 = packets_lost m"
      "packet_loss_rate m2 = packet_loss_rate m"
    unfolding m2_def
    using tracking_after_packet(1-3) [OF len(2) ver(2) handle, where m = m1] s1 seqs(2) by simp_all
  have s4: "last_received_sequence m4 = 4" "packets_lost m4 = packets_lost m + 1"
      "packet_loss_rate m4 = loss_rate_update (packet_loss_rate m) 1 4"
    unfolding m4_def
    using tracking_after_packet(1,4,5) [OF len(3) ver(3) handle, where m = m2] s2 seqs(3) by simp_all
  have s5: "last_received_sequence m5 = 5" "packets_lost m5 = packets_lost m + 1"
      "packet_loss_rate m5 = loss_rate_update (packet_loss_rate m) 1 4"
    unfolding m5_def
    using tracking_after_packet(1-3) [OF len(4) ver(4) handle, where m = m4] s4 seqs(4) by simp_all
  show ?thesis unfolding run by (simp add: s5)
qed

theorem loss_after_1_2_4_5_witness:
  "last_received_sequence server_fresh = 0
   \<and> packets_lost server_fresh = 0
   \<and> packets_lost (process_packets no_handlers server_fresh
        [[1, 10, 1, 0], [1, 10, 2, 0], [1, 5, 4, 0, 104, 105], [1, 11, 5, 0]]) = 1
   \<and> packet_loss_rate (process_packets no_handlers server_fresh
        [[1, 10, 1, 0], [1, 10, 2, 0], [1, 5, 4, 0, 104, 105], [1, 11, 5, 0]]) = Some (1 / 40)"
proof -
  have s: "last_received_sequence server_fresh = 0"
    by (simp add: server_fresh_def network_manager_create_def)
  have "packets_lost (process_packets no_handlers server_fresh
        [[1, 10, 1, 0], [1, 10, 2, 0], [1, 5, 4, 0, 104, 105], [1, 11, 5, 0]]) =
          packets_lost server_fresh + 1
     \<and> packet_loss_rate (process_packets no_handlers server_fresh
        [[1, 10, 1, 0], [1, 10, 2, 0], [1, 5, 4, 0, 104, 105], [1, 11, 5, 0]]) =
          loss_rate_update (packet_loss_rate server_fresh) 1 4
     \<and> last_received_sequence (process_packets no_handlers server_fresh
        [[1, 10, 1, 0], [1, 10, 2, 0], [1, 5, 4, 0, 104, 105], [1, 11, 5, 0]]) = 5"
    by (rule loss_after_1_2_4_5 [OF s])
       (simp_all add: METAVERSE_PROTOCOL_VERSION_def read_u16_def no_handlers_def)
  then show ?thesis
    using s by (simp add: server_fresh_def network_manager_create_def loss_rate_update_def)
qed

lemma process_packet_receive_counters:
  "packets_received (fst (network_process_packet m d)) = packets_received m"
  "bytes_received (fst (network_process_packet m d)) = bytes_received m"
  by (simp_all add: network_process_packet_def Let_def)

lemma receive_round_counters:
  assumes "d \<noteq> []"
  shows "packets_received (fst (network_receive_round m d)) = packets_received m + 1"
    and "bytes_received (fst (network_receive_round m d)) =
           bytes_received m + of_nat (min MAX_PACKET_SIZE (length d))"
proof -
  have pos: "0 < length (take MAX_PACKET_SIZE d)"
    using assms by (simp add: MAX_PACKET_SIZE_def)
  have l: "length (take MAX_PACKET_SIZE d) = min MAX_PACKET_SIZE (length d)"
    by (simp add: min.commute)
  show "packets_received (fst (network_receive_round m d)) = packets_received m + 1"
    using pos
    by (simp add: network_receive_round_def Let_def split_beta process_packet_receive_counters
        del: length_take length_greater_0_conv)
  show "bytes_received (fst (network_receive_round m d)) =
          bytes_received m + of_nat (min MAX_PACKET_SIZE (length d))"
    using pos
    by (simp add: network_receive_round_def Let_def split_beta process_packet_receive_counters l
        del: length_take length_greater_0_conv)
qed

lemma version_mismatch_round:
  assumes "d \<noteq> []" and "d ! 0 \<noteq> METAVERSE_PROTOCOL_VERSION"
  shows "network_receive_round m d =
     (m \<lparr> packets_received := packets_received m + 1,
          bytes_received := bytes_received m + of_nat (min MAX_PACKET_SIZE (length d)) \<rparr>,
      Some (if length d < 4 then TooShort else VersionMismatch))"
proof -
  let ?b = "take MAX_PACKET_SIZE d"
  have l: "length ?b = min MAX_PACKET_SIZE (length d)" by (simp add: min.commute)
  have pos: "0 < length ?b" using assms(1) by (simp add: MAX_PACKET_SIZE_def)
  have v: "?b ! 0 = d ! 0" using pos by simp
  have short: "length ?b < 4 \<longleftrightarrow> length d < 4" by (auto simp add: MAX_PACKET_SIZE_def)
  show ?thesis
    using pos v assms(2) short
    by (simp add: network_receive_round_def Let_def process_packet_rejected l
        del: length_take nth_take length_greater_0_conv)
qed

text \<open>
  Claim C8, as the code has it. A datagram whose first byte is not the supported
  protocol version is dropped and no counter is incremented for it.
  \<open>network_process_packet\<close> returns the manager it was given, so the sequence counters,
  the player records, the entity table and every statistic are the same, and nothing is
  dispatched; when the packet has at least 4 bytes it prints one diagnostic line, and a
  shorter one is dropped silently. Around it the receive thread advances
  \<open>packets_received\<close> by one and \<open>bytes_received\<close> by the length, which it does for
  every datagram \<open>d'\<close>, whatever its version.
\<close>

theorem version_mismatch_only_printed:
  assumes "d \<noteq> []" and "d ! 0 \<noteq> METAVERSE_PROTOCOL_VERSION" and "d' \<noteq> []"
  shows "network_process_packet m d = (m, if length d < 4 then TooShort else VersionMismatch)
       \<and> diagnostic_output (snd (network_process_packet m d)) =
           (if length d < 4 then [] else [''Protocol version mismatch''])
       \<and> network_receive_round m d =
           (m \<lparr> packets_received := packets_received m + 1,
                bytes_received := bytes_received m + of_nat (min MAX_PACKET_SIZE (length d)) \<rparr>,
            Some (if length d < 4 then TooShort else VersionMismatch))
       \<and> packets_received (fst (network_receive_round m d')) = packets_received m + 1
       \<and> bytes_received (fst (network_receive_round m d')) =
           bytes_received m + of_nat (min MAX_PACKET_SIZE (length d'))"
proof -
  have one: "network_process_packet m d =
      (m, if length d < 4 then TooShort else VersionMismatch)"
    using assms(2) by (simp add: process_packet_rejected)
  have two: "diagnostic_output (snd (network_process_packet m d)) =
      (if length d < 4 then [] else [''Protocol version mismatch''])"
    by (simp add: one diagnostic_output_def)
  show ?thesis
    using one two version_mismatch_round [OF assms(1,2), of m]
      receive_round_counters [OF assms(3), of m]
    by simp
qed

theorem version_mismatch_only_printed_witness:
  "ping_version_2 \<noteq> [] \<and> ping_version_2 ! 0 \<noteq> METAVERSE_PROTOCOL_VERSION \<and> ping_11 \<noteq> []
   \<and> network_process_packet client_after_10 ping_version_2 = (client_after_10, VersionMismatch)
   \<and> diagnostic_output (snd (network_process_packet client_after_10 ping_version_2)) =
       [''Protocol version mismatch'']
   \<and> network_receive_round client_after_10 ping_version_2 =
       (client_after_10 \<lparr> packets_received := 1, bytes_received := 5 \<rparr>, Some VersionMismatch)
   \<and> packets_received (fst (network_receive_round client_after_10 ping_11)) = 1
   \<and> bytes_received (fst (network_receive_round client_after_10 ping_11)) = 5"
proof -
  have a: "ping_version_2 \<noteq> []" by (simp add: ping_version_2_def)
  have b: "ping_version_2 ! 0 \<noteq> METAVERSE_PROTOCOL_VERSION"
    by (simp add: ping_version_2_def METAVERSE_PROTOCOL_VERSION_def)
  have c: "ping_11 \<noteq> []" by (simp add: ping_11_def)
  show ?thesis
    using a b c version_mismatch_only_printed [OF a b c, of client_after_10]
    by (simp add: ping_version_2_def ping_11_def client_after_10_def network_manager_create_def
        MAX_PACKET_SIZE_def diagnostic_output_def)
qed

text \<open>
  Claim C8 as stated fails: no counter records the mismatch. With 10 received last, the
  packet of version 2 leaves the manager unchanged in \<open>network_process_packet\<close>, and
  after the round of the receive thread each of the five counters has the value it had
  before or the value that the valid ping numbered 11, of the same length, gives it.
\<close>

theorem version_mismatch_counterexample:
  "ping_version_2 ! 0 \<noteq> METAVERSE_PROTOCOL_VERSION
   \<and> network_process_packet client_after_10 ping_version_2 = (client_after_10, VersionMismatch)
   \<and> snd (network_receive_round client_after_10 ping_11) = Some (Dispatched Handle_ping [7])
   \<and> packets_received (fst (network_receive_round client_after_10 ping_version_2)) =
       packets_received (fst (network_receive_round client_after_10 ping_11))
   \<and> bytes_received (fst (network_receive_round client_after_10 ping_version_2)) =
       bytes_received (fst (network_receive_round client_after_10 ping_11))
   \<and> packets_lost (fst (network_receive_round client_after_10 ping_version_2)) =
       packets_lost client_after_10
   \<and> packets_sent (fst (network_receive_round client_after_10 ping_version_2)) =
       packets_sent client_after_10
   \<and> bytes_sent (fst (network_receive_round client_after_10 ping_version_2)) =
       bytes_sent client_after_10"
  by (simp add: network_receive_round_def network_process_packet_def ping_version_2_def
      ping_11_def client_after_10_def network_manager_create_def read_u16_def dispatch_def
      METAVERSE_PROTOCOL_VERSION_def MAX_PACKET_SIZE_def Let_def)

subsection \<open>State reconciliation\<close>


lemma find_entity_from_Some:
  "find_entity_from es i eid = Some j \<Longrightarrow>
     i \<le> j \<and> j < i + length es \<and> entity_id (es ! (j - i)) = eid
     \<and> (\<forall>k < j - i. entity_id (es ! k) \<noteq> eid)"
proof (induction es arbitrary: i)
  case Nil
  then show ?case by simp
next
  case (Cons e es)
  show ?case
  proof (cases "entity_id e = eid")
    case True
    with Cons.prems show ?thesis by simp
  next
    case False
    with Cons.prems have r: "find_entity_from es (Suc i) eid = Some j" by simp
    from Cons.IH [OF r] have ih: "Suc i \<le> j" "j < Suc i + length es"
      "entity_id (es ! (j - Suc i)) = eid" "\<forall>k < j - Suc i. entity_id (es ! k) \<noteq> eid"
      by simp_all
    have d: "j - i = Suc (j - Suc i)" using ih(1) by simp
    show ?thesis
      using ih False by (auto simp add: d less_Suc_eq_0_disj)
  qed
qed

lemma find_entity_from_ids:
  "map entity_id es = map entity_id es' \<Longrightarrow> find_entity_from es i eid = find_entity_from es' i eid"
proof (induction es arbitrary: es' i)
  case Nil
  then show ?case by simp
next
  case (Cons e es)
  then obtain e' es'' where "es' = e' # es''" by (cases es') auto
  with Cons show ?case by auto
qed

lemma find_entity_from_first:
  "k < length es \<Longrightarrow> entity_id (es ! k) = eid \<Longrightarrow> \<forall>t < k. entity_id (es ! t) \<noteq> eid \<Longrightarrow>
     find_entity_from es i eid = Some (i + k)"
proof (induction es arbitrary: i k)
  case Nil
  then show ?case by simp
next
  case (Cons e es)
  show ?case
  proof (cases k)
    case 0
    with Cons.prems show ?thesis by simp
  next
    case (Suc k')
    have ne: "entity_id e \<noteq> eid" using Cons.prems(3) Suc by auto
    have "find_entity_from es (Suc i) eid = Some (Suc i + k')"
      using Cons.prems Suc by (intro Cons.IH) auto
    with ne Suc show ?thesis by simp
  qed
qed

lemma find_server_entity_Some:
  assumes "find_server_entity es eid = Some j"
  shows "j < length es" and "entity_id (es ! j) = eid"
    and "find_server_entity es (entity_id (es ! j)) = Some j"
proof -
  from find_entity_from_Some [OF assms [unfolded find_server_entity_def]]
  have a: "j < length es" "entity_id (es ! j) = eid" "\<forall>k < j. entity_id (es ! k) \<noteq> eid"
    by simp_all
  show "j < length es" "entity_id (es ! j) = eid" by (rule a)+
  show "find_server_entity es (entity_id (es ! j)) = Some j"
    unfolding find_server_entity_def
    using find_entity_from_first [of j es eid 0] a by simp
qed

lemma find_server_entity_exists:
  assumes "i < length es"
  shows "\<exists>j \<le> i. find_server_entity es (entity_id (es ! i)) = Some j"
proof -
  define P where "P k \<longleftrightarrow> entity_id (es ! k) = entity_id (es ! i)" for k
  have "P i" by (simp add: P_def)
  define j where "j = (LEAST k. P k)"
  have pj: "P j" unfolding j_def using \<open>P i\<close> by (rule LeastI)
  have le: "j \<le> i" unfolding j_def using \<open>P i\<close> by (rule Least_le)
  have mn: "\<forall>t < j. \<not> P t" unfolding j_def using not_less_Least by blast
  have "find_entity_from es 0 (entity_id (es ! i)) = Some (0 + j)"
    using le assms pj mn by (intro find_entity_from_first) (auto simp add: P_def)
  then show ?thesis using le by (auto simp add: find_server_entity_def)
qed

lemma find_server_entity_distinct:
  assumes "distinct (map entity_id es)" and "t < length es"
  shows "find_server_entity es (entity_id (es ! t)) = Some t"
proof -
  have "\<forall>a < length es. \<forall>b < length es. a \<noteq> b \<longrightarrow> entity_id (es ! a) \<noteq> entity_id (es ! b)"
    using assms(1) by (simp add: distinct_conv_nth)
  then have "\<forall>k < t. entity_id (es ! k) \<noteq> entity_id (es ! t)"
    using assms(2) by auto
  then have "find_entity_from es 0 (entity_id (es ! t)) = Some (0 + t)"
    using assms(2) by (intro find_entity_from_first) simp_all
  then show ?thesis by (simp add: find_server_entity_def)
qed

lemma same_identifier_same_slot:
  assumes "distinct (map entity_id es)" and "t < length es" and "i < length es"
    and "entity_id (es ! t) = entity_id (es ! i)"
  shows "t = i"
proof -
  have "\<forall>a < length es. \<forall>b < length es. a \<noteq> b \<longrightarrow> entity_id (es ! a) \<noteq> entity_id (es ! b)"
    using assms(1) by (simp add: distinct_conv_nth)
  then show ?thesis using assms(2-4) by auto
qed

lemma entity_id_reconciled: "entity_id (reconciled ops local_id es t) = entity_id (es ! t)"
  by (simp add: reconciled_def Let_def split: option.split)

lemma reconciled_first:
  assumes "find_server_entity es (entity_id (es ! t)) = Some t"
  shows "reconciled ops local_id es t = es ! t"
  using assms by (simp add: reconciled_def Let_def)

lemma reconcile_loop_Suc:
  "reconcile_loop ops local_id (Suc k) es =
     reconcile_entity ops local_id k (reconcile_loop ops local_id k es)"
  by (simp add: reconcile_loop_def)

lemma reconcile_loop_closed:
  assumes "k \<le> length es0"
  shows "reconcile_loop ops local_id k es0 =
           (map (\<lambda>t. if t < k then reconciled ops local_id es0 t else es0 ! t) [0..<length es0],
            concat (map (mismatch_events ops local_id es0) [0..<k]))"
  using assms
proof (induction k)
  case 0
  show ?case by (simp add: reconcile_loop_def map_nth)
next
  case (Suc k)
  define es where
    "es = map (\<lambda>t. if t < k then reconciled ops local_id es0 t else es0 ! t) [0..<length es0]"
  define out where "out = concat (map (mismatch_events ops local_id es0) [0..<k])"
  have kn: "k < length es0" using Suc.prems by simp
  have st: "reconcile_loop ops local_id k es0 = (es, out)"
    using Suc.IH kn by (simp add: es_def out_def)
  have len: "length es = length es0" by (simp add: es_def)
  have ek: "es ! k = es0 ! k" using kn by (simp add: es_def)
  have ids: "map entity_id es = map entity_id es0"
    by (rule nth_equalityI) (simp_all add: es_def entity_id_reconciled)
  have fnd: "find_server_entity es eid = find_server_entity es0 eid" for eid
    unfolding find_server_entity_def by (rule find_entity_from_ids [OF ids])
  have srv: "es ! j = es0 ! j" if "find_server_entity es0 (entity_id (es0 ! k)) = Some j" for j
  proof -
    have jn: "j < length es0" and self: "find_server_entity es0 (entity_id (es0 ! j)) = Some j"
      using find_server_entity_Some [OF that] by simp_all
    show ?thesis using jn by (simp add: es_def reconciled_first [OF self])
  qed
  have same: "es [k := es0 ! k] = es"
    using list_update_id [of es k] by (simp add: ek)
  have step: "reconcile_entity ops local_id k (es, out) =
      (es [k := reconciled ops local_id es0 k], out @ mismatch_events ops local_id es0 k)"
  proof (cases "owner_id (es0 ! k) = local_id")
    case False
    then show ?thesis
      using ek by (simp add: reconcile_entity_def reconciled_def mismatch_events_def Let_def same)
  next
    case True
    obtain j where j: "find_server_entity es0 (entity_id (es0 ! k)) = Some j"
      using find_server_entity_exists [OF kn] by blast
    show ?thesis
      using True j srv [OF j] ek
      by (simp add: reconcile_entity_def reconciled_def mismatch_events_def Let_def fnd same)
  qed
  have upd: "es [k := reconciled ops local_id es0 k] =
      map (\<lambda>t. if t < Suc k then reconciled ops local_id es0 t else es0 ! t) [0..<length es0]"
    by (rule nth_equalityI) (auto simp add: es_def nth_list_update less_Suc_eq)
  have "reconcile_loop ops local_id (Suc k) es0 =
      (es [k := reconciled ops local_id es0 k], out @ mismatch_events ops local_id es0 k)"
    by (simp only: reconcile_loop_Suc st step)
  also have "out @ mismatch_events ops local_id es0 k =
      concat (map (mismatch_events ops local_id es0) [0..<Suc k])"
    by (simp add: out_def)
  finally show ?case by (simp only: upd)
qed

lemma reconcile_state_client:
  assumes "\<not> is_server m"
  shows "entities (fst (network_reconcile_state ops m)) =
           map (reconciled ops (local_player_id m) (entities m)) [0..<length (entities m)]"
    and "snd (network_reconcile_state ops m) =
           concat (map (mismatch_events ops (local_player_id m) (entities m))
             [0..<length (entities m)])"
    and "fst (network_reconcile_state ops m) =
           m \<lparr> entities := entities (fst (network_reconcile_state ops m)) \<rparr>"
  using assms
  by (simp_all add: network_reconcile_state_def reconcile_loop_closed Let_def)

lemma reconcile_loop_events:
  assumes "i < length es"
  shows "snd (reconcile_loop ops local_id (Suc i) es) =
           snd (reconcile_loop ops local_id i es) @ mismatch_events ops local_id es i"
  using assms by (simp add: reconcile_loop_closed)

text \<open>
  The only way to a correction: a slot \<open>i\<close> of the local player that fails the test
  against the slot \<open>j\<close> that \<open>find_server_entity\<close> returns for its identifier, which is
  then an earlier slot of the same table with the same identifier. Slot \<open>i\<close> gets the
  position and the rotation of slot \<open>j\<close>, and round \<open>i\<close> prints one line.
\<close>

lemma reconcile_snaps_to_first_slot:
  assumes client: "\<not> is_server m"
    and i: "i < length (entities m)"
    and owned: "owner_id (entities m ! i) = local_player_id m"
    and server: "find_server_entity (entities m) (entity_id (entities m ! i)) = Some j"
    and diverged: "state_mismatch ops (entities m ! i) (entities m ! j)"
  shows "position (entities (fst (network_reconcile_state ops m)) ! i) = position (entities m ! j)
       \<and> rotation (entities (fst (network_reconcile_state ops m)) ! i) = rotation (entities m ! j)
       \<and> entities (fst (network_reconcile_state ops m)) ! j = entities m ! j
       \<and> snd (reconcile_loop ops (local_player_id m) (Suc i) (entities m)) =
           snd (reconcile_loop ops (local_player_id m) i (entities m))
             @ [StateMismatch (entity_id (entities m ! i))]"
proof -
  have j: "j < length (entities m)"
    and self: "find_server_entity (entities m) (entity_id (entities m ! j)) = Some j"
    using find_server_entity_Some [OF server] by simp_all
  have ri: "reconciled ops (local_player_id m) (entities m) i =
      (entities m ! i) \<lparr> position := position (entities m ! j),
                         rotation := rotation (entities m ! j) \<rparr>"
    using owned server diverged by (simp add: reconciled_def Let_def)
  have ev: "mismatch_events ops (local_player_id m) (entities m) i =
      [StateMismatch (entity_id (entities m ! i))]"
    using owned server diverged by (simp add: mismatch_events_def Let_def)
  show ?thesis
    using i j by (simp add: reconcile_state_client(1) [OF client] ri reconciled_first [OF self]
        reconcile_loop_events ev)
qed

text \<open>
  Claim C1 against the code. The state that \<open>network_reconcile_state\<close> takes as the
  server's is the slot that \<open>find_server_entity\<close> finds in the client's own table. On
  a client whose entities have distinct identifiers that slot is the entity itself, so
  the entity is compared with itself; where the float test does not hold of an entity
  and itself, no line is printed and the manager is returned as it was, whatever state
  the server holds for the entities.
\<close>

theorem reconcile_compares_entity_with_itself:
  assumes client: "\<not> is_server m"
    and ids: "distinct (map entity_id (entities m))"
    and self: "\<forall>e \<in> set (entities m). \<not> state_mismatch ops e e"
  shows "network_reconcile_state ops m = (m, [])"
proof -
  let ?es = "entities m"
  have first: "find_server_entity ?es (entity_id (?es ! t)) = Some t" if "t < length ?es" for t
    using find_server_entity_distinct [OF ids that] .
  have same: "reconciled ops (local_player_id m) ?es t = ?es ! t" if "t < length ?es" for t
    by (rule reconciled_first [OF first [OF that]])
  have quiet: "mismatch_events ops (local_player_id m) ?es t = []" if "t < length ?es" for t
    using first [OF that] self that by (simp add: mismatch_events_def Let_def)
  have es: "entities (fst (network_reconcile_state ops m)) = ?es"
    unfolding reconcile_state_client(1) [OF client]
    by (rule nth_equalityI) (simp_all add: same)
  have "concat (map (mismatch_events ops (local_player_id m) ?es) [0..<length ?es]) = []"
    by (simp add: quiet)
  then have out: "snd (network_reconcile_state ops m) = []"
    by (simp only: reconcile_state_client(2) [OF client])
  have "fst (network_reconcile_state ops m) = m"
    using reconcile_state_client(3) [OF client, of ops] by (simp add: es)
  with out show ?thesis by (simp add: prod_eq_iff)
qed

theorem reconcile_compares_entity_with_itself_witness:
  "\<not> is_server client_predicted
   \<and> distinct (map entity_id (entities client_predicted))
   \<and> length (entities client_predicted) = 1
   \<and> \<not> state_mismatch example_float_ops (entities client_predicted ! 0)
         (entities client_predicted ! 0)
   \<and> owner_id (entities client_predicted ! 0) = local_player_id client_predicted
   \<and> position (entities client_predicted ! 0) = unit_x
   \<and> network_reconcile_state example_float_ops client_predicted = (client_predicted, [])"
proof -
  have a: "\<not> is_server client_predicted"
    by (simp add: client_predicted_def network_manager_create_def)
  have b: "distinct (map entity_id (entities client_predicted))"
    by (simp add: client_predicted_def)
  have c: "\<forall>e \<in> set (entities client_predicted). \<not> state_mismatch example_float_ops e e"
    by (simp add: client_predicted_def state_mismatch_def vector_distance_def
        example_float_ops_def)
  show ?thesis
    using a b c reconcile_compares_entity_with_itself [OF a b c]
    by (simp add: client_predicted_def avatar_at_def)
qed

text \<open>
  Claim C9. On a client, take a slot \<open>i\<close> of the entity table that the local player
  owns and let \<open>j\<close> be the slot that \<open>find_server_entity\<close> returns for its identifier.
  When the float test of the code (the distance of the positions above \<open>0.1f\<close> or the
  distance of the rotations above \<open>0.01f\<close>, in the float arithmetic of the code, whatever
  it is) does not hold between the two, then after \<open>network_reconcile_state\<close> the entity
  in slot \<open>i\<close> is the same and round \<open>i\<close> of the loop printed nothing. When the test
  holds for no slot of the local player with this identifier, as is the case when the
  identifiers of the table are distinct, no line for this entity is among the lines that
  the function printed.
\<close>

theorem reconcile_keeps_agreeing:
  assumes client: "\<not> is_server m"
    and i: "i < length (entities m)"
    and owned: "owner_id (entities m ! i) = local_player_id m"
    and server: "find_server_entity (entities m) (entity_id (entities m ! i)) = Some j"
    and agree: "\<not> state_mismatch ops (entities m ! i) (entities m ! j)"
  shows "entities (fst (network_reconcile_state ops m)) ! i = entities m ! i
       \<and> snd (reconcile_loop ops (local_player_id m) (Suc i) (entities m)) =
           snd (reconcile_loop ops (local_player_id m) i (entities m))
       \<and> ((\<forall>t < length (entities m).
              entity_id (entities m ! t) = entity_id (entities m ! i) \<longrightarrow>
              owner_id (entities m ! t) = local_player_id m \<longrightarrow>
              \<not> state_mismatch ops (entities m ! t) (entities m ! j)) \<longrightarrow>
            StateMismatch (entity_id (entities m ! i))
              \<notin> set (snd (network_reconcile_state ops m)))"
proof -
  let ?es = "entities m"
  let ?k = "entity_id (?es ! i)"
  have ri: "reconciled ops (local_player_id m) ?es i = ?es ! i"
    using owned server agree by (simp add: reconciled_def Let_def)
  have ev: "mismatch_events ops (local_player_id m) ?es i = []"
    using owned server agree by (simp add: mismatch_events_def Let_def)
  have quiet: "StateMismatch ?k \<notin> set (snd (network_reconcile_state ops m))"
    if others: "\<forall>t < length ?es. entity_id (?es ! t) = ?k \<longrightarrow>
        owner_id (?es ! t) = local_player_id m \<longrightarrow> \<not> state_mismatch ops (?es ! t) (?es ! j)"
  proof -
    have none: "StateMismatch ?k \<notin> set (mismatch_events ops (local_player_id m) ?es t)"
      if t: "t < length ?es" for t
    proof
      assume ev: "StateMismatch ?k \<in> set (mismatch_events ops (local_player_id m) ?es t)"
      show False
      proof (cases "find_server_entity ?es (entity_id (?es ! t))")
        case None
        then show False
          using ev by (simp add: mismatch_events_def Let_def split: if_splits)
      next
        case (Some j')
        from ev Some have o: "owner_id (?es ! t) = local_player_id m"
          and mm: "state_mismatch ops (?es ! t) (?es ! j')"
          and id: "entity_id (?es ! t) = ?k"
          by (auto simp add: mismatch_events_def Let_def split: if_splits)
        from Some id server have "j' = j" by simp
        with others t o id mm show False by auto
      qed
    qed
    show ?thesis
      unfolding reconcile_state_client(2) [OF client] using none by auto
  qed
  have slot: "entities (fst (network_reconcile_state ops m)) ! i = ?es ! i"
    using i by (simp add: reconcile_state_client(1) [OF client] ri)
  have round: "snd (reconcile_loop ops (local_player_id m) (Suc i) ?es) =
      snd (reconcile_loop ops (local_player_id m) i ?es)"
    using i by (simp add: reconcile_loop_events ev)
  show ?thesis
    using slot round quiet by blast
qed

theorem reconcile_keeps_agreeing_witness:
  "\<not> is_server client_two \<and> 0 < length (entities client_two)
   \<and> owner_id (entities client_two ! 0) = local_player_id client_two
   \<and> find_server_entity (entities client_two) (entity_id (entities client_two ! 0)) = Some 0
   \<and> \<not> state_mismatch example_float_ops (entities client_two ! 0) (entities client_two ! 0)
   \<and> distinct (map entity_id (entities client_two))
   \<and> entities (fst (network_reconcile_state example_float_ops client_two)) ! 0 = avatar_at unit_x
   \<and> snd (reconcile_loop example_float_ops 1 (Suc 0) (entities client_two)) =
       snd (reconcile_loop example_float_ops 1 0 (entities client_two))
   \<and> StateMismatch 7 \<notin> set (snd (network_reconcile_state example_float_ops client_two))"
proof -
  have a: "\<not> is_server client_two" by (simp add: client_two_def network_manager_create_def)
  have b: "0 < length (entities client_two)" by (simp add: client_two_def)
  have c: "owner_id (entities client_two ! 0) = local_player_id client_two"
    by (simp add: client_two_def avatar_at_def)
  have d: "find_server_entity (entities client_two) (entity_id (entities client_two ! 0)) = Some 0"
    by (simp add: client_two_def avatar_at_def find_server_entity_def)
  have e: "\<not> state_mismatch example_float_ops (entities client_two ! 0) (entities client_two ! 0)"
    by (simp add: client_two_def state_mismatch_def vector_distance_def example_float_ops_def)
  have f: "\<forall>t < length (entities client_two).
      entity_id (entities client_two ! t) = entity_id (entities client_two ! 0) \<longrightarrow>
      owner_id (entities client_two ! t) = local_player_id client_two \<longrightarrow>
      \<not> state_mismatch example_float_ops (entities client_two ! t) (entities client_two ! 0)"
    using e by (auto simp add: client_two_def avatar_at_def less_Suc_eq)
  have g: "distinct (map entity_id (entities client_two))"
    by (simp add: client_two_def avatar_at_def)
  have h: "StateMismatch (entity_id (entities client_two ! 0))
      \<notin> set (snd (network_reconcile_state example_float_ops client_two))"
    using reconcile_keeps_agreeing [OF a b c d e] f by blast
  show ?thesis
    using a b c d e g h reconcile_keeps_agreeing [OF a b c d e]
    by (simp add: client_two_def avatar_at_def)
qed

subsection \<open>Entity interpolation\<close>

lemma interpolate_entity_same: "interpolate_entity now local_id entity = entity"
  by (simp add: interpolate_entity_def)

lemma network_interpolate_entities_same: "network_interpolate_entities now m = m"
proof -
  have "map (interpolate_entity now (local_player_id m)) (entities m) = entities m"
    by (rule map_idI) (rule interpolate_entity_same)
  then show ?thesis by (simp add: network_interpolate_entities_def)
qed

text \<open>
  Claim C4 against the code. At time 105 the client holds an entity of another player,
  updated at time 100 with an interpolation time of 10: it is not owned, not stale, the
  factor is 1/2, and \<open>network_interpolate_entities\<close> returns the manager it was given.
  No position is computed, and an entity record has no second state to blend with.
\<close>

theorem interpolation_not_applied:
  "owner_id remote_avatar \<noteq> local_player_id client_remote
   \<and> \<not> 105 - last_update remote_avatar > 1000
   \<and> interpolation_alpha 105 remote_avatar = 1 / 2
   \<and> network_interpolate_entities 105 client_remote = client_remote"
  by (simp add: network_interpolate_entities_same interpolation_alpha_def remote_avatar_def
      client_remote_def avatar_at_def)

subsection \<open>Snapshots\<close>

lemma snapshot_collect_bound:
  assumes "unat (entity_count s) \<le> MAX_ENTITIES_PER_PACKET"
    and "length (snapshot_entities s) = unat (entity_count s)"
  shows "unat (entity_count (snapshot_collect clock i es s)) \<le> MAX_ENTITIES_PER_PACKET
       \<and> length (snapshot_entities (snapshot_collect clock i es s)) =
           unat (entity_count (snapshot_collect clock i es s))"
  using assms
proof (induction es arbitrary: i s)
  case Nil
  then show ?case by simp
next
  case (Cons e es)
  show ?case
  proof (cases "unat (entity_count s) \<ge> MAX_ENTITIES_PER_PACKET")
    case True
    with Cons.prems show ?thesis by simp
  next
    case False
    then have lt: "unat (entity_count s) < 64" by (simp add: MAX_ENTITIES_PER_PACKET_def)
    then have suc: "unat (entity_count s + 1) = Suc (unat (entity_count s))"
      by (simp add: unat_word_ariths)
    let ?s' = "s \<lparr> snapshot_entities := snapshot_entities s @ [e],
                    entity_count := entity_count s + 1 \<rparr>"
    have "unat (entity_count ?s') \<le> MAX_ENTITIES_PER_PACKET"
      using lt suc by (simp add: MAX_ENTITIES_PER_PACKET_def)
    moreover have "length (snapshot_entities ?s') = unat (entity_count ?s')"
      using Cons.prems(2) suc by simp
    ultimately have a: "unat (entity_count (snapshot_collect clock (Suc i) es ?s')) \<le> MAX_ENTITIES_PER_PACKET
       \<and> length (snapshot_entities (snapshot_collect clock (Suc i) es ?s')) =
           unat (entity_count (snapshot_collect clock (Suc i) es ?s'))"
      by (rule Cons.IH)
    have b: "unat (entity_count (snapshot_collect clock (Suc i) es s)) \<le> MAX_ENTITIES_PER_PACKET
       \<and> length (snapshot_entities (snapshot_collect clock (Suc i) es s)) =
           unat (entity_count (snapshot_collect clock (Suc i) es s))"
      using Cons.prems by (rule Cons.IH)
    show ?thesis using False a b by (simp add: Let_def)
  qed
qed

text \<open>
  Claim C6. Whatever the entity table, the clock and the players, the snapshot that
  \<open>network_send_snapshot\<close> builds has an entity count of at most
  \<open>MAX_ENTITIES_PER_PACKET\<close>, and it holds exactly that many entities.
\<close>

theorem snapshot_entity_count_bounded:
  "unat (entity_count (build_snapshot snapshot_counter now clock manager))
     \<le> MAX_ENTITIES_PER_PACKET
   \<and> length (snapshot_entities (build_snapshot snapshot_counter now clock manager)) =
       unat (entity_count (build_snapshot snapshot_counter now clock manager))"
  using snapshot_collect_bound [of "\<lparr> snapshot_id = snapshot_counter, timestamp = now,
      entity_count = 0, snapshot_entities = [], player_count = 0, player_ids = [] \<rparr>"
      clock 0 "entities manager"]
  by (simp add: build_snapshot_def Let_def)

text \<open>
  The bound is reached: with 64 or more entities that count as recently changed at every
  reading of the clock, the snapshot holds exactly 64. The snapshot built is the one that
  a successful send leaves in the ring.
\<close>

lemma snapshot_collect_full:
  assumes "\<forall>e \<in> set es. \<forall>t. clock t - last_update e \<le> 2"
    and "unat (entity_count s) \<le> MAX_ENTITIES_PER_PACKET"
    and "MAX_ENTITIES_PER_PACKET \<le> unat (entity_count s) + length es"
  shows "unat (entity_count (snapshot_collect clock i es s)) = MAX_ENTITIES_PER_PACKET"
  using assms
proof (induction es arbitrary: i s)
  case Nil
  then show ?case by simp
next
  case (Cons e es)
  show ?case
  proof (cases "unat (entity_count s) \<ge> MAX_ENTITIES_PER_PACKET")
    case True
    with Cons.prems(2) show ?thesis by simp
  next
    case False
    then have lt: "unat (entity_count s) < 64" by (simp add: MAX_ENTITIES_PER_PACKET_def)
    then have suc: "unat (entity_count s + 1) = Suc (unat (entity_count s))"
      by (simp add: unat_word_ariths)
    let ?s' = "s \<lparr> snapshot_entities := snapshot_entities s @ [e],
                    entity_count := entity_count s + 1 \<rparr>"
    have recent: "clock i - last_update e \<le> 2" using Cons.prems(1) by simp
    have "unat (entity_count (snapshot_collect clock (Suc i) es ?s')) = MAX_ENTITIES_PER_PACKET"
      using Cons.prems lt suc by (intro Cons.IH) (simp_all add: MAX_ENTITIES_PER_PACKET_def)
    then show ?thesis using False recent by (simp add: Let_def)
  qed
qed

lemma snapshot_capped_when_full:
  assumes "\<forall>e \<in> set (entities manager). \<forall>t. clock t - last_update e \<le> 2"
    and "MAX_ENTITIES_PER_PACKET \<le> length (entities manager)"
  shows "unat (entity_count (build_snapshot snapshot_counter now clock manager)) =
           MAX_ENTITIES_PER_PACKET"
  using snapshot_collect_full [of "entities manager" clock
      "\<lparr> snapshot_id = snapshot_counter, timestamp = now,
      entity_count = 0, snapshot_entities = [], player_count = 0, player_ids = [] \<rparr>" 0] assms
  by (simp add: build_snapshot_def Let_def)

lemma send_snapshot_stores:
  assumes "is_server manager"
    and "network_send_snapshot snapshot_counter now clock manager = Inr (manager', c', out)"
    and "unat (snapshot_head manager) < length (snapshots manager)"
  shows "snapshots manager' ! unat (snapshot_head manager) =
           build_snapshot snapshot_counter now clock manager"
  using assms by (auto simp add: network_send_snapshot_def Let_def split: if_splits)

text \<open>
  The packet buffer is smaller than the bound on the entity count: a snapshot of more
  than 20 entities does not fit.
\<close>

lemma snapshot_overflows_past_20:
  "20 < unat (entity_count snapshot) \<Longrightarrow> MAX_PACKET_SIZE < snapshot_packet_size snapshot"
  by (simp add: snapshot_packet_size_def MAX_PACKET_SIZE_def)

subsection \<open>Voice packets\<close>

lemma VoicePacket_layout:
  "member_offsets 0 VoicePacket_members = [0, 4, 8, 12, 13, 14, 16, 18]"
  "sizeof_VoicePacket = 1220"
  by (simp_all add: VoicePacket_members_def sizeof_VoicePacket_def sizeof_struct_def align_up_def)

lemma memcpy_in_bounds:
  assumes "n \<le> length src" and "off + n \<le> length dst"
  shows "memcpy dst off src n = Inr (take off dst @ take n src @ drop (off + n) dst)"
  using assms by (simp add: memcpy_def)

lemma memcpy_length:
  assumes "memcpy dst off src n = Inr r"
  shows "length r = length dst"
  using assms by (auto simp add: memcpy_def split: if_splits)

lemma voice_image_length:
  assumes "length a = sizeof_audio_data"
  shows "length (voice_image p t c r ds a) = sizeof_VoicePacket"
  using assms
  by (simp add: voice_image_def le32_def le16_def VoicePacket_layout(2) sizeof_audio_data_def)

lemma packet_buffer_length: "length (packet_buffer t seq) = MAX_PACKET_SIZE"
  by (simp add: packet_buffer_def le16_def MAX_PACKET_SIZE_def)

text \<open>
  Claim C10. When \<open>data_size\<close> is at most 1200, the size of \<open>audio_data\<close> in a
  \<open>VoicePacket\<close>, and the caller's buffer holds that many bytes, the copy of the payload
  into the struct stays inside \<open>audio_data\<close>, \<open>network_send_voice\<close> returns without a
  read or write out of bounds, and every packet it sends has \<open>24 + data_size\<close> bytes,
  which is at most \<open>MAX_PACKET_SIZE\<close>.
\<close>

theorem voice_within_bounds:
  assumes size: "unat data_size \<le> sizeof_audio_data"
    and audio: "unat data_size \<le> length audio_data"
  shows "memcpy (replicate sizeof_audio_data None) 0 (map Some audio_data) (unat data_size) \<noteq>
           Inl WriteOutOfBounds
       \<and> (\<exists>manager' out.
            network_send_voice now manager audio_data data_size channels sample_rate =
              Inr (manager', out)
            \<and> list_all (\<lambda>d. length (snd d) = 24 + unat data_size) out)
       \<and> 24 + unat data_size \<le> MAX_PACKET_SIZE"
proof -
  define n where "n = unat data_size"
  define a where "a = take n (map Some audio_data) @ drop n (replicate sizeof_audio_data None)"
  define voice where
    "voice = voice_image (local_player_id manager) now channels sample_rate data_size a"
  define packet0 where "packet0 = packet_buffer PACKET_VOICE_DATA (next_send_sequence manager)"
  define k where "k = sizeof_VoicePacket - sizeof_audio_data + n"
  define packet where "packet = take 4 packet0 @ take k voice @ drop (4 + k) packet0"
  have n: "n \<le> 1200" "n \<le> length audio_data"
    using size audio by (simp_all add: n_def sizeof_audio_data_def)
  have first: "memcpy (replicate sizeof_audio_data None) 0 (map Some audio_data) n = Inr a"
    using memcpy_in_bounds [of n "map Some audio_data" 0 "replicate sizeof_audio_data None"] n
    by (simp add: a_def sizeof_audio_data_def)
  have la: "length a = sizeof_audio_data" using n by (simp add: a_def sizeof_audio_data_def)
  have k: "k = 20 + n" by (simp add: k_def VoicePacket_layout(2) sizeof_audio_data_def)
  have lv: "length voice = 1220"
    unfolding voice_def using voice_image_length [OF la] by (simp add: VoicePacket_layout(2))
  have lp: "length packet0 = 1400"
    by (simp add: packet0_def packet_buffer_length MAX_PACKET_SIZE_def)
  have src: "k \<le> length voice" using n by (simp add: lv k)
  have dst: "4 + k \<le> length packet0" using n by (simp add: lp k)
  have second: "memcpy packet0 4 voice k = Inr packet"
    unfolding packet_def by (rule memcpy_in_bounds [OF src dst])
  have "length packet = 1400" using memcpy_length [OF second] lp by simp
  then have sent: "min (length packet) (4 + k) = 24 + n" using n by (simp add: k)
  have fits: "24 + n \<le> MAX_PACKET_SIZE" using n by (simp add: MAX_PACKET_SIZE_def)
  have run: "\<exists>manager' out.
      network_send_voice now manager audio_data data_size channels sample_rate = Inr (manager', out)
      \<and> list_all (\<lambda>d. length (snd d) = 24 + n) out"
  proof (cases "is_connected manager")
    case False
    then show ?thesis by (simp add: network_send_voice_def)
  next
    case True
    have "network_send_voice now manager audio_data data_size channels sample_rate =
        Inr ((manager \<lparr> next_send_sequence := next_send_sequence manager + 1 \<rparr>)
               \<lparr> packets_sent := packets_sent manager + 1,
                 bytes_sent := bytes_sent manager + of_nat (4 + k) \<rparr>,
             map (\<lambda>a. (a, take (4 + k) packet))
               (if is_server manager then
                  map address
                    (filter (\<lambda>p. connected p \<and> player_id p \<noteq> local_player_id manager)
                       (players manager))
                else [server_address manager]))"
      using True first second
      unfolding network_send_voice_def n_def [symmetric] 
      by (simp add: Let_def voice_def [symmetric] packet0_def [symmetric] k_def [symmetric])
    then show ?thesis by (simp add: list_all_iff sent)
  qed
  show ?thesis using first run fits by (simp add: n_def)
qed

theorem voice_within_bounds_witness:
  "unat (1200 :: u16) \<le> sizeof_audio_data
   \<and> unat (1200 :: u16) \<le> length (replicate 1200 (0 :: u8))
   \<and> (\<exists>manager' out.
         network_send_voice 0 voice_caller (replicate 1200 0) 1200 2 48000 = Inr (manager', out)
         \<and> list_all (\<lambda>d. length (snd d) = 1224) out)
   \<and> (1224 :: nat) \<le> MAX_PACKET_SIZE"
proof -
  have a: "unat (1200 :: u16) \<le> sizeof_audio_data" by (simp add: sizeof_audio_data_def)
  have b: "unat (1200 :: u16) \<le> length (replicate 1200 (0 :: u8))" by simp
  show ?thesis
    using a b voice_within_bounds [OF a b, of 0 voice_caller 2 48000] by simp
qed

text \<open>The function itself does not check: a larger \<open>data_size\<close> writes past \<open>audio_data\<close>.\<close>

lemma voice_overflow_unchecked:
  assumes "is_connected manager" and "sizeof_audio_data < unat data_size"
    and "unat data_size \<le> length audio_data"
  shows "network_send_voice now manager audio_data data_size channels sample_rate =
           Inl WriteOutOfBounds"
  using assms by (simp add: network_send_voice_def memcpy_def)

subsection \<open>Reliable packets\<close>

lemma retransmissions_set:
  "q \<in> set (retransmissions as) \<longleftrightarrow> Retransmit q \<in> set as"
  by (induction as rule: retransmissions.induct) auto

lemma kept_packets_set:
  "q \<in> set (kept_packets as) \<longleftrightarrow> Keep q \<in> set as \<or> Retransmit q \<in> set as"
  by (induction as rule: kept_packets.induct) auto

lemma retransmitted_origin:
  assumes "Retransmit q \<in> set (map (retry_packet max_retries timeout now) ps)"
  shows "\<exists>p \<in> set ps. \<not> acked p \<and> unat (retry_count p) < max_retries
           \<and> send_time p + timeout \<le> now \<and> sequence q = sequence p
           \<and> q = p \<lparr> retry_count := retry_count p + 1, send_time := now \<rparr>"
  using assms by (auto simp add: retry_packet_def split: if_splits)

lemma disconnect_players:
  "list_all (\<lambda>pl. player_id pl = peer \<longrightarrow> \<not> connected pl)
     (map (\<lambda>p. if player_id p = peer then p \<lparr> connected := False \<rparr> else p) ps)"
  by (induction ps) simp_all

lemma registry_disconnect_effect:
  "(if is_server m then
      list_all (\<lambda>pl. player_id pl = peer \<longrightarrow> \<not> connected pl)
        (players (registry_disconnect peer m))
    else \<not> is_connected (registry_disconnect peer m))"
proof (cases "is_server m")
  case True
  then show ?thesis
    using disconnect_players [of peer "players m"] by (simp add: registry_disconnect_def)
next
  case False
  then show ?thesis by (simp add: registry_disconnect_def)
qed

text \<open>
  Claim C7, against the model written from the specification. For a queued packet that
  is unacknowledged, has been retransmitted the maximum number of times and whose timeout
  has passed again, the tick reports the peer as unreachable instead of retransmitting;
  every packet the tick does retransmit had a retry count below the maximum; and the
  manager after the tick is the one the registry produces for a keepalive timeout of the
  peer, in which the peer is disconnected.
\<close>

theorem retry_budget_exhausted:
  assumes queued: "p \<in> set (sent_packets m)"
    and unacked: "\<not> acked p"
    and spent: "max_retries \<le> unat (retry_count p)"
    and due: "send_time p + timeout \<le> now"
  shows "retry_packet max_retries timeout now p = Unreachable
       \<and> snd (snd (network_send_reliable_retries max_retries timeout now peer m))
       \<and> list_all (\<lambda>q. \<exists>r \<in> set (sent_packets m).
              unat (retry_count r) < max_retries
              \<and> q = r \<lparr> retry_count := retry_count r + 1, send_time := now \<rparr>)
            (fst (snd (network_send_reliable_retries max_retries timeout now peer m)))
       \<and> fst (network_send_reliable_retries max_retries timeout now peer m) =
           registry_keepalive_timeout peer
             (m \<lparr> sent_packets := kept_packets
                    (map (retry_packet max_retries timeout now) (sent_packets m)) \<rparr>)
       \<and> (if is_server m then
             list_all (\<lambda>pl. player_id pl = peer \<longrightarrow> \<not> connected pl)
               (players (fst (network_send_reliable_retries max_retries timeout now peer m)))
           else \<not> is_connected (fst (network_send_reliable_retries max_retries timeout now peer m)))"
proof -
  have one: "retry_packet max_retries timeout now p = Unreachable"
    using unacked spent due by (simp add: retry_packet_def)
  then have sig: "Unreachable \<in> set (map (retry_packet max_retries timeout now) (sent_packets m))"
    using queued by force
  have resent: "list_all (\<lambda>q. \<exists>r \<in> set (sent_packets m).
              unat (retry_count r) < max_retries
              \<and> q = r \<lparr> retry_count := retry_count r + 1, send_time := now \<rparr>)
            (retransmissions (map (retry_packet max_retries timeout now) (sent_packets m)))"
    unfolding list_all_iff
  proof
    fix q
    assume "q \<in> set (retransmissions
      (map (retry_packet max_retries timeout now) (sent_packets m)))"
    then have "Retransmit q \<in> set (map (retry_packet max_retries timeout now) (sent_packets m))"
      by (simp only: retransmissions_set)
    from retransmitted_origin [OF this]
    show "\<exists>r \<in> set (sent_packets m). unat (retry_count r) < max_retries
        \<and> q = r \<lparr> retry_count := retry_count r + 1, send_time := now \<rparr>"
      by blast
  qed
  let ?m1 = "m \<lparr> sent_packets := kept_packets
                    (map (retry_packet max_retries timeout now) (sent_packets m)) \<rparr>"
  have run: "network_send_reliable_retries max_retries timeout now peer m =
      (registry_keepalive_timeout peer ?m1,
       retransmissions (map (retry_packet max_retries timeout now) (sent_packets m)), True)"
    using sig by (simp add: network_send_reliable_retries_def Let_def registry_peer_unreachable_def)
  have gone: "(if is_server m then
             list_all (\<lambda>pl. player_id pl = peer \<longrightarrow> \<not> connected pl)
               (players (registry_keepalive_timeout peer ?m1))
           else \<not> is_connected (registry_keepalive_timeout peer ?m1))"
    using registry_disconnect_effect [of ?m1 peer] by (simp add: registry_keepalive_timeout_def)
  show ?thesis
    unfolding run using one resent gone by simp
qed

theorem retry_budget_exhausted_witness:
  "rpc_unacked \<in> set (sent_packets client_waiting) \<and> \<not> acked rpc_unacked
   \<and> (5 :: nat) \<le> unat (retry_count rpc_unacked) \<and> send_time rpc_unacked + 2 \<le> (20 :: nat)
   \<and> is_connected client_waiting
   \<and> retry_packet 5 2 20 rpc_unacked = Unreachable
   \<and> fst (snd (network_send_reliable_retries 5 2 20 0 client_waiting)) = []
   \<and> snd (snd (network_send_reliable_retries 5 2 20 0 client_waiting))
   \<and> \<not> is_connected (fst (network_send_reliable_retries 5 2 20 0 client_waiting))"
proof -
  have a: "rpc_unacked \<in> set (sent_packets client_waiting)" by (simp add: client_waiting_def)
  have b: "\<not> acked rpc_unacked" by (simp add: rpc_unacked_def)
  have c: "(5 :: nat) \<le> unat (retry_count rpc_unacked)" by (simp add: rpc_unacked_def)
  have d: "send_time rpc_unacked + 2 \<le> (20 :: nat)" by (simp add: rpc_unacked_def)
  have e: "\<not> is_server client_waiting"
    by (simp add: client_waiting_def network_manager_create_def)
  have f: "fst (snd (network_send_reliable_retries 5 2 20 0 client_waiting)) = []"
    by (simp add: network_send_reliable_retries_def client_waiting_def retry_packet_def
        rpc_unacked_def Let_def)
  show ?thesis
    using a b c d e f retry_budget_exhausted [OF a b c d, of 0]
    by (simp add: client_waiting_def registry_keepalive_timeout_def registry_disconnect_def)
qed

end
